theory Spec2Isabelle
  imports Main "HOL-Library.Multiset"
begin

section \<open>The storage manager of stringStorage (database.py)\<close>

text \<open>
  \<^verbatim>\<open>DatabaseManager\<close> keeps one SQLite table,
  \<^verbatim>\<open>strings(id, index_key, data, created_at, updated_at)\<close>, and offers five
  operations on it. Each operation opens a connection, runs one or two SQL statements and
  closes the connection, so an operation is a function from the table before to a result
  and the table after.

  Conventions of the embedding.
  \<^item> A Python \<^verbatim>\<open>str\<close> is a \<open>string\<close>; one \<open>char\<close> stands for one character of the
    Python string, so \<open>length\<close> is Python's \<^verbatim>\<open>len\<close>.
  \<^item> A timestamp is a \<open>nat\<close>: the number of seconds that SQLite's
    \<^verbatim>\<open>CURRENT_TIMESTAMP\<close> text \<^verbatim>\<open>YYYY-MM-DD HH:MM:SS\<close> denotes. The text
    comparison that \<^verbatim>\<open>ORDER BY created_at\<close> performs agrees with the order of these
    numbers. The reading of the clock is an input of the operation that takes it
    (\<open>now\<close>); within one statement every \<^verbatim>\<open>CURRENT_TIMESTAMP\<close> has the same value.
  \<^item> The table is the list of its rows in rowid order. \<^verbatim>\<open>AUTOINCREMENT\<close> gives a new
    row an id above every id used before, so a new row is appended at the end.
  \<^item> Faults of the storage layer (disk, connection) are outside the model; the only
    exception that the code itself handles, \<^verbatim>\<open>sqlite3.IntegrityError\<close>, is the
    \<open>None\<close> result of \<open>sql_insert\<close>.
\<close>

subsection \<open>The table\<close>

record row =
  row_id :: nat
  index_key :: string
  data :: string
  created_at :: nat
  updated_at :: nat

record db =
  database_path :: string
  rows :: "row list"
  seq :: nat

text \<open>
  \<^verbatim>\<open>init_database\<close> on a database file without the table:
  \<^verbatim>\<open>CREATE TABLE IF NOT EXISTS strings (...)\<close> creates it empty. (On a file that has
  the table already the statement does nothing.) \<open>seq\<close> is the largest id handed out so
  far, which SQLite keeps for an \<^verbatim>\<open>AUTOINCREMENT\<close> column.
\<close>

definition init_database :: "string \<Rightarrow> db" where
  "init_database path = \<lparr>database_path = path, rows = [], seq = 0\<rparr>"

subsection \<open>The SQL statements\<close>

text \<open>\<^verbatim>\<open>WHERE index_key = ?\<close>: the rows with that key, in rowid order.\<close>

definition where_index_key :: "string \<Rightarrow> row list \<Rightarrow> row list" where
  "where_index_key k rs = filter (\<lambda>r. index_key r = k) rs"

text \<open>
  \<^verbatim>\<open>INSERT INTO strings (index_key, data) VALUES (?, ?)\<close>. The column
  \<^verbatim>\<open>index_key\<close> is \<^verbatim>\<open>UNIQUE\<close>: with a row of that key in the table the statement
  raises \<^verbatim>\<open>IntegrityError\<close> (\<open>None\<close>) and changes nothing. Otherwise the new row gets
  the next id and both timestamps from the two \<^verbatim>\<open>DEFAULT CURRENT_TIMESTAMP\<close>.
\<close>

definition sql_insert :: "nat \<Rightarrow> string \<Rightarrow> string \<Rightarrow> db \<Rightarrow> db option" where
  "sql_insert now k d s =
     (if where_index_key k (rows s) \<noteq> [] then None
      else Some (s\<lparr>rows := rows s @
                    [\<lparr>row_id = Suc (seq s), index_key = k, data = d,
                      created_at = now, updated_at = now\<rparr>],
                  seq := Suc (seq s)\<rparr>))"

text \<open>
  \<^verbatim>\<open>UPDATE strings SET data = ?, updated_at = CURRENT_TIMESTAMP WHERE index_key = ?\<close>.
\<close>

definition sql_update :: "nat \<Rightarrow> string \<Rightarrow> string \<Rightarrow> db \<Rightarrow> db" where
  "sql_update now d k s =
     s\<lparr>rows := map (\<lambda>r. if index_key r = k then r\<lparr>data := d, updated_at := now\<rparr> else r)
                   (rows s)\<rparr>"

text \<open>\<^verbatim>\<open>DELETE FROM strings WHERE index_key = ?\<close>.\<close>

definition sql_delete :: "string \<Rightarrow> db \<Rightarrow> db" where
  "sql_delete k s = s\<lparr>rows := filter (\<lambda>r. index_key r \<noteq> k) (rows s)\<rparr>"

text \<open>
  \<^verbatim>\<open>ORDER BY created_at DESC\<close>. SQLite scans the table in rowid order and its sorter
  keeps rows of equal key in scan order, with and without \<^verbatim>\<open>LIMIT\<close>; \<open>sort_key\<close> is
  such a stable sort. The key is negated to sort descending.
\<close>

definition order_by_created_at_desc :: "row list \<Rightarrow> row list" where
  "order_by_created_at_desc rs = sort_key (\<lambda>r. - int (created_at r)) rs"

text \<open>
  SQL \<^verbatim>\<open>LENGTH(X)\<close> of a text value: the number of characters of \<open>X\<close> before the
  first NUL character (SQLite, "Built-In Scalar SQL Functions", \<^verbatim>\<open>length(X)\<close>).
\<close>

definition sql_length :: "string \<Rightarrow> nat" where
  "sql_length x = length (takeWhile (\<lambda>c. c \<noteq> CHR 0x00) x)"

text \<open>SQL \<^verbatim>\<open>SUM\<close>: \<^verbatim>\<open>NULL\<close> (Python's \<^verbatim>\<open>None\<close>) over no rows.\<close>

definition sql_sum :: "nat list \<Rightarrow> nat option" where
  "sql_sum xs = (if xs = [] then None else Some (sum_list xs))"

text \<open>Python's \<^verbatim>\<open>x or 0\<close> on an optional number: \<^verbatim>\<open>None\<close> and \<open>0\<close> are falsy.\<close>

definition or_0 :: "nat option \<Rightarrow> nat" where
  "or_0 x = (case x of None \<Rightarrow> 0 | Some n \<Rightarrow> if n = 0 then 0 else n)"

subsection \<open>store_string\<close>

text \<open>
  The two messages of \<^verbatim>\<open>store_string\<close> are Russian sentences built from the index
  alone: "string saved under index <index>" and "string updated under index <index>".
\<close>

datatype message = Saved_under string | Updated_under string

record store_result =
  action :: string
  message :: message
  status_code :: nat
  res_index :: string
  res_length :: nat

definition store_string :: "nat \<Rightarrow> string \<Rightarrow> string \<Rightarrow> db \<Rightarrow> store_result \<times> db" where
  "store_string now index d s =
     (case sql_insert now index d s of
        Some s' \<Rightarrow>
          (\<lparr>action = ''created'', message = Saved_under index, status_code = 201,
            res_index = index, res_length = length d\<rparr>, s')
      | None \<Rightarrow>
          (\<lparr>action = ''updated'', message = Updated_under index, status_code = 200,
            res_index = index, res_length = length d\<rparr>, sql_update now d index s))"

subsection \<open>get_string\<close>

record string_record =
  rec_index :: string
  rec_data :: string
  rec_created_at :: nat
  rec_updated_at :: nat

text \<open>\<^verbatim>\<open>fetchone()\<close> gives the first row of the result, or \<^verbatim>\<open>None\<close>.\<close>

definition get_string :: "string \<Rightarrow> db \<Rightarrow> string_record option" where
  "get_string index s =
     (case where_index_key index (rows s) of
        [] \<Rightarrow> None
      | r # _ \<Rightarrow> Some \<lparr>rec_index = index_key r, rec_data = data r,
                       rec_created_at = created_at r, rec_updated_at = updated_at r\<rparr>)"

subsection \<open>delete_string\<close>

definition delete_string :: "string \<Rightarrow> db \<Rightarrow> bool \<times> db" where
  "delete_string index s =
     (let count = length (where_index_key index (rows s))
      in if count = 0 then (False, s) else (True, sql_delete index s))"

subsection \<open>list_all_indices\<close>

record index_entry =
  ent_index :: string
  ent_created_at :: nat
  ent_updated_at :: nat
  data_length :: nat

definition entry_of :: "row \<Rightarrow> index_entry" where
  "entry_of r = \<lparr>ent_index = index_key r, ent_created_at = created_at r,
                 ent_updated_at = updated_at r, data_length = sql_length (data r)\<rparr>"

definition list_all_indices :: "db \<Rightarrow> index_entry list" where
  "list_all_indices s = map entry_of (order_by_created_at_desc (rows s))"

subsection \<open>get_statistics\<close>

record statistics =
  total_records :: nat
  total_data_size :: nat
  database_file :: string
  database_exists :: bool
  latest_record :: "(string \<times> nat) option"

text \<open>
  \<open>file_exists\<close> is what \<^verbatim>\<open>os.path.exists(self.database_path)\<close> answers.
  \<open>latest_record = None\<close> is the dictionary without the key \<^verbatim>\<open>latest_record\<close>.
\<close>

definition get_statistics :: "bool \<Rightarrow> db \<Rightarrow> statistics" where
  "get_statistics file_exists s =
     (let total_count = length (rows s);
          total_size = or_0 (sql_sum (map (\<lambda>r. sql_length (data r)) (rows s)));
          latest = (case take 1 (order_by_created_at_desc (rows s)) of
                      [] \<Rightarrow> None | r # _ \<Rightarrow> Some r)
      in \<lparr>total_records = total_count, total_data_size = total_size,
          database_file = database_path s, database_exists = file_exists,
          latest_record = (case latest of
                             None \<Rightarrow> None
                           | Some r \<Rightarrow> Some (index_key r, created_at r))\<rparr>)"

subsection \<open>Histories of operations\<close>

text \<open>
  An operation of a history together with the reading of the clock at which it runs.
  The three reads commit nothing.
\<close>

datatype op = Upsert string string | Get string | Delete string | ListAll | Stats

fun exec :: "nat \<Rightarrow> op \<Rightarrow> db \<Rightarrow> db" where
  "exec now (Upsert k v) s = snd (store_string now k v s)"
| "exec now (Get k) s = s"
| "exec now (Delete k) s = snd (delete_string k s)"
| "exec now ListAll s = s"
| "exec now Stats s = s"

fun run :: "(nat \<times> op) list \<Rightarrow> db \<Rightarrow> db" where
  "run [] s = s"
| "run ((now, x) # tr) s = run tr (exec now x s)"


subsection \<open>Invariants of the table\<close>

text \<open>The \<^verbatim>\<open>UNIQUE\<close> constraint on \<^verbatim>\<open>index_key\<close>.\<close>

definition unique_keys :: "db \<Rightarrow> bool" where
  "unique_keys s = distinct (map index_key (rows s))"


section \<open>Properties\<close>

subsection \<open>Basic facts about the statements\<close>

lemma where_index_key_append:
  "where_index_key k (xs @ ys) = where_index_key k xs @ where_index_key k ys"
  by (simp add: where_index_key_def)

lemma where_index_key_empty_iff:
  "where_index_key k rs = [] \<longleftrightarrow> k \<notin> index_key ` set rs"
  by (auto simp: where_index_key_def filter_empty_conv)


lemma store_string_absent:
  assumes "k \<notin> index_key ` set (rows s)"
  shows "store_string now k v s =
    (\<lparr>action = ''created'', message = Saved_under k, status_code = 201,
      res_index = k, res_length = length v\<rparr>,
     s\<lparr>rows := rows s @ [\<lparr>row_id = Suc (seq s), index_key = k, data = v,
                            created_at = now, updated_at = now\<rparr>],
       seq := Suc (seq s)\<rparr>)"
  using assms by (simp add: store_string_def sql_insert_def where_index_key_empty_iff)

lemma store_string_present:
  assumes "k \<in> index_key ` set (rows s)"
  shows "store_string now k v s =
    (\<lparr>action = ''updated'', message = Updated_under k, status_code = 200,
      res_index = k, res_length = length v\<rparr>, sql_update now v k s)"
  using assms by (simp add: store_string_def sql_insert_def where_index_key_empty_iff)

lemma unique_split:
  assumes "unique_keys s" "k \<in> index_key ` set (rows s)"
  shows "\<exists>xs r ys. rows s = xs @ r # ys \<and> index_key r = k \<and>
           k \<notin> index_key ` set xs \<and> k \<notin> index_key ` set ys"
proof -
  from assms(2) obtain r where "r \<in> set (rows s)" "index_key r = k" by auto
  then obtain xs ys where sp: "rows s = xs @ r # ys" by (auto dest: split_list)
  with assms(1) \<open>index_key r = k\<close> show ?thesis
    by (auto simp: unique_keys_def)
qed

lemma map_update_other:
  assumes "k \<notin> index_key ` set xs"
  shows "map (\<lambda>r. if index_key r = k then r\<lparr>data := d, updated_at := now\<rparr> else r) xs = xs"
  using assms by (induction xs) auto

lemma filter_other_keys:
  assumes "k \<notin> index_key ` set xs"
  shows "filter (\<lambda>r. index_key r \<noteq> k) xs = xs"
  using assms by (induction xs) auto

lemma sql_update_split:
  assumes "rows s = xs @ r # ys" "index_key r = k"
    "k \<notin> index_key ` set xs" "k \<notin> index_key ` set ys"
  shows "sql_update now d k s = s\<lparr>rows := xs @ r\<lparr>data := d, updated_at := now\<rparr> # ys\<rparr>"
  using assms by (simp add: sql_update_def map_update_other)

lemma sql_delete_split:
  assumes "rows s = xs @ r # ys" "index_key r = k"
    "k \<notin> index_key ` set xs" "k \<notin> index_key ` set ys"
  shows "sql_delete k s = s\<lparr>rows := xs @ ys\<rparr>"
  using assms by (simp add: sql_delete_def filter_other_keys)

lemma delete_string_absent:
  "k \<notin> index_key ` set (rows s) \<Longrightarrow> delete_string k s = (False, s)"
  by (simp add: delete_string_def where_index_key_empty_iff [symmetric])

lemma delete_string_present:
  "k \<in> index_key ` set (rows s) \<Longrightarrow> delete_string k s = (True, sql_delete k s)"
  using where_index_key_empty_iff [of k "rows s"] by (simp add: delete_string_def)













lemma filter_other_store:
  "filter (\<lambda>r. index_key r \<noteq> k) (rows (snd (store_string now k v s))) =
   filter (\<lambda>r. index_key r \<noteq> k) (rows s)"
proof (cases "k \<in> index_key ` set (rows s)")
  case True
  have "filter (\<lambda>r. index_key r \<noteq> k)
          (map (\<lambda>r. if index_key r = k then r\<lparr>data := v, updated_at := now\<rparr> else r) xs) =
        filter (\<lambda>r. index_key r \<noteq> k) xs" for xs
    by (induction xs) auto
  with True show ?thesis
    by (simp add: store_string_present sql_update_def)
next
  case False
  then show ?thesis by (simp add: store_string_absent)
qed

lemma filter_other_delete:
  "filter (\<lambda>r. index_key r \<noteq> k) (rows (snd (delete_string k s))) =
   filter (\<lambda>r. index_key r \<noteq> k) (rows s)"
  by (cases "k \<in> index_key ` set (rows s)")
    (simp_all add: delete_string_absent delete_string_present sql_delete_def)



subsection \<open>What the two reports compute\<close>

lemma or_0_sql_sum: "or_0 (sql_sum xs) = sum_list xs"
  by (simp add: or_0_def sql_sum_def)

lemma sum_list_order_by:
  fixes f :: "row \<Rightarrow> nat"
  shows "sum_list (map f (order_by_created_at_desc rs)) = sum_list (map f rs)"
proof -
  have "mset (map f (order_by_created_at_desc rs)) = mset (map f rs)"
    by (simp add: order_by_created_at_desc_def)
  then have "sum_mset (mset (map f (order_by_created_at_desc rs))) = sum_mset (mset (map f rs))"
    by (simp only:)
  then show ?thesis by (simp only: sum_mset_sum_list)
qed

lemma order_by_empty_iff: "order_by_created_at_desc rs = [] \<longleftrightarrow> rs = []"
  by (metis length_0_conv length_sort order_by_created_at_desc_def)

lemma total_data_size_eq:
  "total_data_size (get_statistics e s) = sum_list (map (\<lambda>r. sql_length (data r)) (rows s))"
  by (simp add: get_statistics_def Let_def or_0_sql_sum)

lemma latest_record_eq:
  "latest_record (get_statistics e s) =
     (case order_by_created_at_desc (rows s) of
        [] \<Rightarrow> None | r # _ \<Rightarrow> Some (index_key r, created_at r))"
  by (simp add: get_statistics_def Let_def split: list.splits)

lemma sql_length_no_nul: "CHR 0x00 \<notin> set v \<Longrightarrow> sql_length v = length v"
proof -
  assume "CHR 0x00 \<notin> set v"
  then have "takeWhile (\<lambda>c. c \<noteq> CHR 0x00) v = v"
    by (induction v) auto
  then show ?thesis unfolding sql_length_def by (rule arg_cong)
qed

lemma sql_length_le: "sql_length v \<le> length v"
  by (simp add: sql_length_def length_takeWhile_le)

lemma list_all_indices_entries:
  "mset (list_all_indices s) = image_mset entry_of (mset (rows s))"
  by (simp add: list_all_indices_def order_by_created_at_desc_def)

lemma list_all_indices_descending:
  "sorted_wrt (\<lambda>a b. ent_created_at a \<ge> ent_created_at b) (list_all_indices s)"
proof -
  have "sorted (map (\<lambda>r. - int (created_at r)) (order_by_created_at_desc (rows s)))"
    by (simp add: order_by_created_at_desc_def)
  then have "sorted_wrt (\<lambda>a b. created_at a \<ge> created_at b) (order_by_created_at_desc (rows s))"
    by (simp add: sorted_map)
  then show ?thesis
    by (simp add: list_all_indices_def sorted_wrt_map entry_of_def)
qed

lemma list_all_indices_newest_first:
  assumes "ta < tb" "tb < tc" "a \<noteq> b" "a \<noteq> c" "b \<noteq> c"
  shows "list_all_indices
           (run [(ta, Upsert a va), (tb, Upsert b vb), (tc, Upsert c vc)] (init_database path)) =
         [\<lparr>ent_index = c, ent_created_at = tc, ent_updated_at = tc, data_length = sql_length vc\<rparr>,
          \<lparr>ent_index = b, ent_created_at = tb, ent_updated_at = tb, data_length = sql_length vb\<rparr>,
          \<lparr>ent_index = a, ent_created_at = ta, ent_updated_at = ta, data_length = sql_length va\<rparr>]"
  using assms
  by (simp add: init_database_def store_string_def sql_insert_def where_index_key_def
      list_all_indices_def order_by_created_at_desc_def entry_of_def)

lemma latest_record_is_newest:
  "(latest_record (get_statistics e s) = None \<longleftrightarrow> rows s = []) \<and>
   (\<forall>k c. latest_record (get_statistics e s) = Some (k, c) \<longrightarrow>
      (\<exists>r \<in> set (rows s). index_key r = k \<and> created_at r = c) \<and>
      (\<forall>r \<in> set (rows s). created_at r \<le> c))"
proof (cases "order_by_created_at_desc (rows s)")
  case Nil
  then show ?thesis
    using order_by_empty_iff [of "rows s"] by (simp add: latest_record_eq)
next
  case (Cons x xs)
  have "sorted (map (\<lambda>r. - int (created_at r)) (order_by_created_at_desc (rows s)))"
    by (simp add: order_by_created_at_desc_def)
  with Cons have le: "\<forall>r \<in> set (x # xs). created_at r \<le> created_at x"
    by auto
  have st: "set (rows s) = set (x # xs)"
    using Cons by (metis order_by_created_at_desc_def set_sort)
  then have x: "x \<in> set (rows s)" by simp
  from Cons have ne: "rows s \<noteq> []"
    using order_by_empty_iff [of "rows s"] by simp
  have lr: "latest_record (get_statistics e s) = Some (index_key x, created_at x)"
    using Cons by (simp add: latest_record_eq)
  from le st have "\<forall>r \<in> set (rows s). created_at r \<le> created_at x"
    by simp
  with x ne lr show ?thesis by auto
qed

lemma total_records_eq: "total_records (get_statistics e s) = length (rows s)"
  by (simp add: get_statistics_def Let_def)

lemma get_statistics_empty:
  "get_statistics e (init_database path) =
     \<lparr>total_records = 0, total_data_size = 0, database_file = path,
      database_exists = e, latest_record = None\<rparr>"
  by (simp add: get_statistics_def init_database_def sql_sum_def or_0_def
      order_by_created_at_desc_def)

text \<open>
  C1. Storing a value under a key that the table does not hold and then reading the key
  gives a record with that key, the value unchanged, and equal creation and update times.
  The key may be any string, the empty one included.
\<close>

theorem store_then_get_roundtrip:
  assumes "k \<notin> index_key ` set (rows s)"
  shows "\<exists>g. get_string k (snd (store_string now k v s)) = Some g \<and>
             rec_index g = k \<and> rec_data g = v \<and>
             rec_created_at g = rec_updated_at g \<and> rec_created_at g = now"
proof -
  from assms have e: "where_index_key k (rows s) = []"
    by (simp add: where_index_key_empty_iff)
  have "where_index_key k
          [\<lparr>row_id = Suc (seq s), index_key = k, data = v,
            created_at = now, updated_at = now\<rparr>] =
          [\<lparr>row_id = Suc (seq s), index_key = k, data = v,
            created_at = now, updated_at = now\<rparr>]"
    by (simp add: where_index_key_def)
  with e show ?thesis
    by (simp add: store_string_def sql_insert_def get_string_def where_index_key_append)
qed

theorem store_then_get_roundtrip_witness:
  "'''' \<notin> index_key ` set (rows (init_database ''strings.db'')) \<and>
   (\<exists>g. get_string '''' (snd (store_string 7 '''' ''hello'' (init_database ''strings.db'')))
          = Some g \<and>
        rec_index g = '''' \<and> rec_data g = ''hello'' \<and>
        rec_created_at g = rec_updated_at g \<and> rec_created_at g = 7)"
proof -
  have h: "'''' \<notin> index_key ` set (rows (init_database ''strings.db''))"
    by (simp add: init_database_def)
  show ?thesis
    using h store_then_get_roundtrip [OF h, of 7 "''hello''"] by simp
qed



text \<open>
  C3. The result of \<open>store_string\<close> says "created" with status 201 exactly when the table
  held no row of the key before the call, and "updated" with status 200 exactly when it
  held one. Either way it carries the key and the length of the value; of the value it
  carries nothing else: two values of the same length give the same result.
\<close>

theorem store_result_reports_branch:
  "(action (fst (store_string now k v s)) = ''created'' \<longleftrightarrow> k \<notin> index_key ` set (rows s)) \<and>
   (status_code (fst (store_string now k v s)) = 201 \<longleftrightarrow> k \<notin> index_key ` set (rows s)) \<and>
   (action (fst (store_string now k v s)) = ''updated'' \<longleftrightarrow> k \<in> index_key ` set (rows s)) \<and>
   (status_code (fst (store_string now k v s)) = 200 \<longleftrightarrow> k \<in> index_key ` set (rows s)) \<and>
   res_index (fst (store_string now k v s)) = k \<and>
   res_length (fst (store_string now k v s)) = length v \<and>
   (length v' = length v \<longrightarrow>
      fst (store_string now k v' s) = fst (store_string now k v s))"
  by (cases "where_index_key k (rows s) = []")
    (simp_all add: store_string_def sql_insert_def where_index_key_empty_iff)

theorem store_result_reports_branch_witness:
  "length ''abc'' = length ''xyz'' \<and>
   action (fst (store_string 3 ''k'' ''xyz'' (init_database ''strings.db''))) = ''created'' \<and>
   status_code (fst (store_string 3 ''k'' ''xyz'' (init_database ''strings.db''))) = 201 \<and>
   res_length (fst (store_string 3 ''k'' ''xyz'' (init_database ''strings.db''))) = 3 \<and>
   fst (store_string 3 ''k'' ''abc'' (init_database ''strings.db'')) =
     fst (store_string 3 ''k'' ''xyz'' (init_database ''strings.db''))"
  using store_result_reports_branch
    [of 3 "''k''" "''xyz''" "init_database ''strings.db''" "''abc''"]
  by (simp add: init_database_def)

text \<open>
  C4. For a key that the table does not hold, \<open>get_string\<close> answers \<open>None\<close> and
  \<open>delete_string\<close> answers \<open>False\<close>, both as ordinary results, and the table stays as
  it was (a read commits nothing: \<open>exec\<close>). For a key that the table holds,
  \<open>delete_string\<close> answers \<open>True\<close>, afterwards the key is gone, and deleting it again
  answers \<open>False\<close> and changes nothing.
\<close>

theorem absent_key_is_a_result:
  "(k \<notin> index_key ` set (rows s) \<longrightarrow>
      get_string k s = None \<and> exec now (Get k) s = s \<and>
      delete_string k s = (False, s)) \<and>
   (k \<in> index_key ` set (rows s) \<longrightarrow>
      fst (delete_string k s) = True \<and>
      k \<notin> index_key ` set (rows (snd (delete_string k s))) \<and>
      get_string k (snd (delete_string k s)) = None \<and>
      delete_string k (snd (delete_string k s)) = (False, snd (delete_string k s)))"
proof (cases "where_index_key k (rows s) = []")
  case True
  then have "k \<notin> index_key ` set (rows s)"
    by (simp add: where_index_key_empty_iff)
  with True show ?thesis
    by (simp add: get_string_def delete_string_def)
next
  case False
  have gone: "where_index_key k (rows (sql_delete k s)) = []"
    by (simp add: where_index_key_def sql_delete_def filter_empty_conv)
  from False have "k \<in> index_key ` set (rows s)"
    by (simp add: where_index_key_empty_iff)
  moreover from False gone have "fst (delete_string k s) = True"
    and "snd (delete_string k s) = sql_delete k s"
    by (simp_all add: delete_string_def)
  moreover from gone have "get_string k (sql_delete k s) = None"
    and "delete_string k (sql_delete k s) = (False, sql_delete k s)"
    by (simp_all add: get_string_def delete_string_def)
  moreover from gone have "k \<notin> index_key ` set (rows (sql_delete k s))"
    by (simp add: where_index_key_empty_iff)
  ultimately show ?thesis by simp
qed

theorem absent_key_is_a_result_witness:
  "''z'' \<notin> index_key ` set (rows (init_database ''strings.db'')) \<and>
   get_string ''z'' (init_database ''strings.db'') = None \<and>
   delete_string ''z'' (init_database ''strings.db'') = (False, init_database ''strings.db'') \<and>
   ''k'' \<in> index_key ` set (rows (snd (store_string 1 ''k'' ''v'' (init_database ''strings.db'')))) \<and>
   fst (delete_string ''k'' (snd (store_string 1 ''k'' ''v'' (init_database ''strings.db'')))) = True \<and>
   get_string ''k''
     (snd (delete_string ''k'' (snd (store_string 1 ''k'' ''v'' (init_database ''strings.db''))))) = None \<and>
   fst (delete_string ''k''
     (snd (delete_string ''k'' (snd (store_string 1 ''k'' ''v'' (init_database ''strings.db'')))))) = False"
proof -
  have a: "''z'' \<notin> index_key ` set (rows (init_database ''strings.db''))"
    by (simp add: init_database_def)
  have p: "''k'' \<in> index_key ` set (rows (snd (store_string 1 ''k'' ''v'' (init_database ''strings.db''))))"
    by (simp add: init_database_def store_string_def sql_insert_def where_index_key_def)
  show ?thesis
    using a p
      absent_key_is_a_result [of "''z''" "init_database ''strings.db''" 0]
      absent_key_is_a_result
        [of "''k''" "snd (store_string 1 ''k'' ''v'' (init_database ''strings.db''))" 0]
    by simp
qed

text \<open>
  C5. \<open>list_all_indices\<close> gives one entry for each row and no other
  (\<open>list_all_indices_entries\<close>), newest creation time first
  (\<open>list_all_indices_descending\<close>, \<open>list_all_indices_newest_first\<close>), and an entry has
  no field for the value. Its \<open>data_length\<close> is the length of the value only for a
  value without a NUL character (\<open>sql_length_no_nul\<close>). For the value "a", NUL, "b", "c"
  \<open>store_string\<close> reports the length 4 and the entry of the list says 1.
\<close>

theorem list_data_length_stops_at_nul:
  "res_length (fst (store_string 1 ''k'' [CHR ''a'', CHR 0x00, CHR ''b'', CHR ''c'']
      (init_database ''strings.db''))) = 4 \<and>
   list_all_indices (snd (store_string 1 ''k'' [CHR ''a'', CHR 0x00, CHR ''b'', CHR ''c'']
      (init_database ''strings.db''))) =
     [\<lparr>ent_index = ''k'', ent_created_at = 1, ent_updated_at = 1, data_length = 1\<rparr>]"
  by (simp add: init_database_def store_string_def sql_insert_def where_index_key_def
      list_all_indices_def order_by_created_at_desc_def entry_of_def sql_length_def)

text \<open>
  C6. \<open>get_statistics\<close> counts the rows (\<open>total_records_eq\<close>), leaves
  \<open>latest_record\<close> out exactly on the empty table and otherwise names a row of the
  greatest creation time (\<open>latest_record_is_newest\<close>), and gives 0 for the size of the
  empty table (\<open>get_statistics_empty\<close>). Its \<open>total_data_size\<close> adds up
  \<^verbatim>\<open>LENGTH(data)\<close> (\<open>total_data_size_eq\<close>), which is the sum of the lengths of
  the values only when no value has a NUL character. With the one value "a", NUL, "b", "c"
  in the table, of length 4, the size reported is 1.
\<close>

theorem total_data_size_stops_at_nul:
  "map (\<lambda>r. length (data r))
     (rows (snd (store_string 1 ''k'' [CHR ''a'', CHR 0x00, CHR ''b'', CHR ''c'']
        (init_database ''strings.db'')))) = [4] \<and>
   total_data_size (get_statistics True
     (snd (store_string 1 ''k'' [CHR ''a'', CHR 0x00, CHR ''b'', CHR ''c'']
        (init_database ''strings.db'')))) = 1"
  by (simp add: init_database_def store_string_def sql_insert_def where_index_key_def
      get_statistics_def Let_def sql_sum_def or_0_def sql_length_def)



text \<open>
  C8. On a table with unique keys, \<open>store_string\<close> either appends one row of the key
  (key absent) or rewrites the value and update time of the one row of the key, in place
  (key present); \<open>delete_string\<close> either changes nothing (key absent) or takes out the
  one row of the key (key present). Rows of other keys stay as they are, in both.
\<close>

theorem single_row_change:
  assumes "unique_keys s"
  shows
    "(k \<notin> index_key ` set (rows s) \<longrightarrow>
        (\<exists>r. index_key r = k \<and> data r = v \<and>
             rows (snd (store_string now k v s)) = rows s @ [r])) \<and>
     (k \<in> index_key ` set (rows s) \<longrightarrow>
        (\<exists>xs r ys. rows s = xs @ r # ys \<and> index_key r = k \<and>
             rows (snd (store_string now k v s)) =
               xs @ r\<lparr>data := v, updated_at := now\<rparr> # ys)) \<and>
     filter (\<lambda>r. index_key r \<noteq> k) (rows (snd (store_string now k v s))) =
       filter (\<lambda>r. index_key r \<noteq> k) (rows s) \<and>
     (k \<notin> index_key ` set (rows s) \<longrightarrow> snd (delete_string k s) = s) \<and>
     (k \<in> index_key ` set (rows s) \<longrightarrow>
        (\<exists>xs r ys. rows s = xs @ r # ys \<and> index_key r = k \<and>
             rows (snd (delete_string k s)) = xs @ ys)) \<and>
     filter (\<lambda>r. index_key r \<noteq> k) (rows (snd (delete_string k s))) =
       filter (\<lambda>r. index_key r \<noteq> k) (rows s)"
proof (cases "k \<in> index_key ` set (rows s)")
  case True
  from unique_split [OF assms True] obtain xs r ys where
    sp: "rows s = xs @ r # ys" "index_key r = k"
        "k \<notin> index_key ` set xs" "k \<notin> index_key ` set ys"
    by blast
  have "rows (snd (store_string now k v s)) = xs @ r\<lparr>data := v, updated_at := now\<rparr> # ys"
    by (simp add: store_string_present [OF True] sql_update_split [OF sp])
  moreover have "rows (snd (delete_string k s)) = xs @ ys"
    by (simp add: delete_string_present [OF True] sql_delete_split [OF sp])
  ultimately show ?thesis
    using True sp(1,2) filter_other_store [of k now v s] filter_other_delete [of k s]
    by blast
next
  case False
  then show ?thesis
    using filter_other_store [of k now v s]
    by (simp add: store_string_absent delete_string_absent)
qed

theorem single_row_change_witness:
  "unique_keys (snd (store_string 1 ''a'' ''x'' (init_database ''strings.db''))) \<and>
   ''a'' \<in> index_key ` set (rows (snd (store_string 1 ''a'' ''x'' (init_database ''strings.db'')))) \<and>
   ''b'' \<notin> index_key ` set (rows (snd (store_string 1 ''a'' ''x'' (init_database ''strings.db'')))) \<and>
   (\<exists>r. index_key r = ''b'' \<and> data r = ''y'' \<and>
        rows (snd (store_string 2 ''b'' ''y''
                (snd (store_string 1 ''a'' ''x'' (init_database ''strings.db''))))) =
        rows (snd (store_string 1 ''a'' ''x'' (init_database ''strings.db''))) @ [r]) \<and>
   (\<exists>xs r ys. rows (snd (store_string 1 ''a'' ''x'' (init_database ''strings.db''))) = xs @ r # ys \<and>
        index_key r = ''a'' \<and>
        rows (snd (store_string 2 ''a'' ''y''
                (snd (store_string 1 ''a'' ''x'' (init_database ''strings.db''))))) =
        xs @ r\<lparr>data := ''y'', updated_at := 2\<rparr> # ys) \<and>
   snd (delete_string ''b'' (snd (store_string 1 ''a'' ''x'' (init_database ''strings.db'')))) =
     snd (store_string 1 ''a'' ''x'' (init_database ''strings.db'')) \<and>
   (\<exists>xs r ys. rows (snd (store_string 1 ''a'' ''x'' (init_database ''strings.db''))) = xs @ r # ys \<and>
        index_key r = ''a'' \<and>
        rows (snd (delete_string ''a''
                (snd (store_string 1 ''a'' ''x'' (init_database ''strings.db''))))) = xs @ ys)"
proof -
  have u: "unique_keys (snd (store_string 1 ''a'' ''x'' (init_database ''strings.db'')))"
    by (simp add: unique_keys_def init_database_def store_string_def sql_insert_def
        where_index_key_def)
  have a: "''a'' \<in> index_key ` set (rows (snd (store_string 1 ''a'' ''x'' (init_database ''strings.db''))))"
    by (simp add: init_database_def store_string_def sql_insert_def where_index_key_def)
  have b: "''b'' \<notin> index_key ` set (rows (snd (store_string 1 ''a'' ''x'' (init_database ''strings.db''))))"
    by (simp add: init_database_def store_string_def sql_insert_def where_index_key_def)
  show ?thesis
    using u a b
      single_row_change [OF u, of "''a''" "''y''" 2]
      single_row_change [OF u, of "''b''" "''y''" 2]
    by blast
qed

text \<open>
  C10. On every table the two reports agree: \<open>list_all_indices\<close> has as many entries
  as \<open>get_statistics\<close> counts records; the \<open>data_length\<close> fields of the entries add up
  to \<open>total_data_size\<close>; the list is empty exactly when the table is, and then
  \<open>latest_record\<close> is left out; otherwise \<open>latest_record\<close> is the key and creation
  time of the first entry of the list.
\<close>

theorem list_and_stats_agree:
  "length (list_all_indices s) = total_records (get_statistics e s) \<and>
   sum_list (map data_length (list_all_indices s)) = total_data_size (get_statistics e s) \<and>
   (list_all_indices s = [] \<longleftrightarrow> rows s = []) \<and>
   (case list_all_indices s of
      [] \<Rightarrow> latest_record (get_statistics e s) = None
    | x # _ \<Rightarrow> latest_record (get_statistics e s) = Some (ent_index x, ent_created_at x))"
proof -
  have "length (list_all_indices s) = total_records (get_statistics e s)"
    by (simp add: list_all_indices_def get_statistics_def Let_def order_by_created_at_desc_def)
  moreover have "sum_list (map data_length (list_all_indices s)) =
      total_data_size (get_statistics e s)"
    using sum_list_order_by [of "\<lambda>r. sql_length (data r)" "rows s"]
    by (simp add: list_all_indices_def total_data_size_eq comp_def entry_of_def)
  moreover have "list_all_indices s = [] \<longleftrightarrow> rows s = []"
    by (simp add: list_all_indices_def order_by_empty_iff)
  moreover have "case list_all_indices s of
      [] \<Rightarrow> latest_record (get_statistics e s) = None
    | x # _ \<Rightarrow> latest_record (get_statistics e s) = Some (ent_index x, ent_created_at x)"
    by (cases "order_by_created_at_desc (rows s)")
      (simp_all add: list_all_indices_def latest_record_eq entry_of_def)
  ultimately show ?thesis by blast
qed

end
